theory Spec2Isabelle
  imports Complex_Main "HOL-Library.Word" "HOL-Library.List_Lexorder" "HOL-Library.Product_Lexorder"
begin

unbundle bit_operations_syntax

section \<open>JavaScript values\<close>

text \<open>
  A JavaScript string is a sequence of UTF-16 code units; \<open>charCodeAt\<close> and
  \<open>length\<close> count code units, so a string is modelled as the list of its code units.
  \<open>js\<close> turns a literal of the source into that list.

  Numbers are modelled by their exact values: an integer result as \<open>int\<close>, the result
  of \<open>parseFloat\<close> as \<open>rat\<close>, \<open>NaN\<close> as \<open>None\<close>. The conversions between
  numbers and strings follow the algorithms of the language standard on these exact
  values. IEEE rounding (which starts at integers of 2^53 and at decimals with more than
  17 digits), the two zeros and the infinities are not modelled: on the text
  \<open>Infinity\<close> the model's \<open>parseFloat\<close> answers \<open>NaN\<close> where the language answers an
  infinity.
\<close>

type_synonym jsstring = "nat list"

definition js :: "string \<Rightarrow> jsstring" where
  "js s = map of_char s"

text \<open>
  A value of a request body. \<open>JNum m e\<close> is the number \<open>m * 10^e\<close>; \<open>JObj s\<close> is an
  array or object whose conversion to a string gives \<open>s\<close>.
\<close>

datatype jsval =
    JUndefined
  | JNull
  | JBool bool
  | JNum int int
  | JStr jsstring
  | JObj jsstring

text \<open>White space as \<open>trim\<close>, \<open>parseInt\<close>, \<open>parseFloat\<close> and the class \<open>\s\<close> of
  regular expressions read it: the standard's WhiteSpace and LineTerminator.\<close>

definition isSpace :: "nat \<Rightarrow> bool" where
  "isSpace c \<longleftrightarrow>
     c \<in> set [9, 10, 11, 12, 13, 32, 160, 5760, 8232, 8233, 8239, 8287, 12288, 65279]
     \<or> (8192 \<le> c \<and> c \<le> 8202)"

definition isDigit :: "nat \<Rightarrow> bool" where
  "isDigit c \<longleftrightarrow> 48 \<le> c \<and> c \<le> 57"

definition isHexDigit :: "nat \<Rightarrow> bool" where
  "isHexDigit c \<longleftrightarrow> isDigit c \<or> (97 \<le> c \<and> c \<le> 102) \<or> (65 \<le> c \<and> c \<le> 70)"

text \<open>The class \<open>\w\<close>: ASCII letters, digits and the underscore.\<close>

definition isWord :: "nat \<Rightarrow> bool" where
  "isWord c \<longleftrightarrow> isDigit c \<or> (97 \<le> c \<and> c \<le> 122) \<or> (65 \<le> c \<and> c \<le> 90) \<or> c = 95"

definition trimStart :: "jsstring \<Rightarrow> jsstring" where
  "trimStart s = dropWhile isSpace s"

definition trim :: "jsstring \<Rightarrow> jsstring" where
  "trim s = rev (dropWhile isSpace (rev (dropWhile isSpace s)))"

text \<open>The digit of a code unit, and the code unit of a digit (lower case beyond 9, as
  \<open>toString(16)\<close> writes it).\<close>

definition digitVal :: "nat \<Rightarrow> nat" where
  "digitVal c =
     (if isDigit c then c - 48 else if 97 \<le> c \<and> c \<le> 102 then c - 87 else c - 55)"

definition digitChar :: "nat \<Rightarrow> nat" where
  "digitChar d = (if d < 10 then 48 + d else 87 + d)"

definition digitsVal :: "nat \<Rightarrow> jsstring \<Rightarrow> nat" where
  "digitsVal R z = foldl (\<lambda>acc c. acc * R + digitVal c) 0 z"

function natToString :: "nat \<Rightarrow> nat \<Rightarrow> jsstring" where
  "natToString R n =
     (if R < 2 \<or> n < R then [digitChar n]
      else natToString R (n div R) @ [digitChar (n mod R)])"
  by pat_completeness auto
termination
  by (relation "measure (\<lambda>(R, n). n)") auto

declare natToString.simps [simp del]

subsection \<open>Number to string\<close>

text \<open>
  \<open>Number::toString\<close> in radix 10 for the number \<open>m * 10^e\<close>. \<open>strip10\<close> finds the
  shortest digit string \<open>s\<close> (no trailing zero); with \<open>k\<close> its length and \<open>n\<close> the
  position of the decimal point, the standard writes positional notation for
  \<open>-6 < n \<le> 21\<close> and exponent notation otherwise.
\<close>

function strip10 :: "nat \<Rightarrow> int \<Rightarrow> nat \<times> int" where
  "strip10 m e = (if m \<noteq> 0 \<and> m mod 10 = 0 then strip10 (m div 10) (e + 1) else (m, e))"
  by pat_completeness auto
termination
  by (relation "measure (\<lambda>(m, e). m)") auto

declare strip10.simps [simp del]

definition posToString :: "nat \<Rightarrow> int \<Rightarrow> jsstring" where
  "posToString m e =
     (let (s, e') = strip10 m e;
          ds = natToString 10 s;
          k = int (length ds);
          n = k + e'
      in if k \<le> n \<and> n \<le> 21 then ds @ replicate (nat (n - k)) 48
         else if 0 < n \<and> n \<le> 21 then take (nat n) ds @ js ''.'' @ drop (nat n) ds
         else if -6 < n \<and> n \<le> 0 then js ''0.'' @ replicate (nat (- n)) 48 @ ds
         else let ex = n - 1;
                  sgn = (if ex < 0 then js ''-'' else js ''+'');
                  exd = natToString 10 (nat \<bar>ex\<bar>)
              in if k = 1 then ds @ js ''e'' @ sgn @ exd
                 else [hd ds] @ js ''.'' @ tl ds @ js ''e'' @ sgn @ exd)"

definition numToString :: "int \<Rightarrow> int \<Rightarrow> jsstring" where
  "numToString m e =
     (if m = 0 then js ''0''
      else if m < 0 then js ''-'' @ posToString (nat (- m)) e
      else posToString (nat m) e)"

definition intToString :: "int \<Rightarrow> jsstring" where
  "intToString n = numToString n 0"

text \<open>\<open>ToString\<close>, \<open>ToBoolean\<close> and the operator \<open>||\<close> on body values.\<close>

fun ToString :: "jsval \<Rightarrow> jsstring" where
  "ToString JUndefined = js ''undefined''"
| "ToString JNull = js ''null''"
| "ToString (JBool b) = (if b then js ''true'' else js ''false'')"
| "ToString (JNum m e) = numToString m e"
| "ToString (JStr s) = s"
| "ToString (JObj s) = s"

fun truthy :: "jsval \<Rightarrow> bool" where
  "truthy JUndefined = False"
| "truthy JNull = False"
| "truthy (JBool b) = b"
| "truthy (JNum m e) = (m \<noteq> 0)"
| "truthy (JStr s) = (s \<noteq> [])"
| "truthy (JObj s) = True"

definition js_or :: "jsval \<Rightarrow> jsval \<Rightarrow> jsval" where
  "js_or a b = (if truthy a then a else b)"

subsection \<open>parseInt and parseFloat\<close>

text \<open>
  \<open>parseInt(string)\<close> with no radix: convert to a string, drop leading white space,
  read one sign, read the prefix \<open>0x\<close> or \<open>0X\<close> (radix 16), and take the longest run of
  digits of the radix; no digit at all is \<open>NaN\<close>.
\<close>

definition parseIntStr :: "jsstring \<Rightarrow> int option" where
  "parseIntStr inputString =
     (let S = trimStart inputString;
          sign = (if S \<noteq> [] \<and> hd S = 45 then - 1 else 1 :: int);
          S1 = (if S \<noteq> [] \<and> (hd S = 43 \<or> hd S = 45) then tl S else S);
          hex = (length S1 \<ge> 2 \<and> (take 2 S1 = js ''0x'' \<or> take 2 S1 = js ''0X''));
          R = (if hex then 16 else 10 :: nat);
          S2 = (if hex then drop 2 S1 else S1);
          Z = takeWhile (if hex then isHexDigit else isDigit) S2
      in if Z = [] then None else Some (sign * int (digitsVal R Z)))"

definition parseInt :: "jsval \<Rightarrow> int option" where
  "parseInt v = parseIntStr (ToString v)"

text \<open>
  \<open>parseFloat(string)\<close>: convert to a string, drop leading white space, and read the
  longest prefix that is a decimal literal: one sign, then digits with an optional
  fraction, or a fraction alone, then an exponent part when it is complete.
\<close>

definition pow10 :: "int \<Rightarrow> rat" where
  "pow10 e = (if 0 \<le> e then 10 ^ nat e else 1 / 10 ^ nat (- e))"

definition exponentPart :: "jsstring \<Rightarrow> int" where
  "exponentPart r =
     (if r \<noteq> [] \<and> (hd r = 101 \<or> hd r = 69) then
        (let t = tl r;
             esign = (if t \<noteq> [] \<and> hd t = 45 then - 1 else 1 :: int);
             t1 = (if t \<noteq> [] \<and> (hd t = 43 \<or> hd t = 45) then tl t else t);
             ed = takeWhile isDigit t1
         in if ed = [] then 0 else esign * int (digitsVal 10 ed))
      else 0)"

definition parseFloatStr :: "jsstring \<Rightarrow> rat option" where
  "parseFloatStr inputString =
     (let S = trimStart inputString;
          sign = (if S \<noteq> [] \<and> hd S = 45 then - 1 else 1 :: rat);
          S1 = (if S \<noteq> [] \<and> (hd S = 43 \<or> hd S = 45) then tl S else S);
          ip = takeWhile isDigit S1;
          r1 = dropWhile isDigit S1;
          dot = (r1 \<noteq> [] \<and> hd r1 = 46);
          fp = (if dot then takeWhile isDigit (tl r1) else []);
          r2 = (if dot then dropWhile isDigit (tl r1) else r1)
      in if ip = [] \<and> fp = [] then None
         else Some (sign * of_nat (digitsVal 10 (ip @ fp))
                      * pow10 (exponentPart r2 - int (length fp))))"

definition parseFloat :: "jsval \<Rightarrow> rat option" where
  "parseFloat v = parseFloatStr (ToString v)"

text \<open>Comparison of numbers that may be \<open>NaN\<close>: every comparison with \<open>NaN\<close> is
  false.\<close>

definition isNaN :: "'a option \<Rightarrow> bool" where
  "isNaN x \<longleftrightarrow> x = None"

definition js_lt :: "'a::linorder option \<Rightarrow> 'a option \<Rightarrow> bool" where
  "js_lt a b = (case (a, b) of (Some x, Some y) \<Rightarrow> x < y | _ \<Rightarrow> False)"

definition js_gt :: "'a::linorder option \<Rightarrow> 'a option \<Rightarrow> bool" where
  "js_gt a b = (case (a, b) of (Some x, Some y) \<Rightarrow> x > y | _ \<Rightarrow> False)"

subsection \<open>32-bit integer operators\<close>

text \<open>\<open>ToInt32\<close> and \<open>ToUint32\<close> of the standard, and the operators \<open><<\<close>, \<open>&\<close> and
  \<open>>>>\<close> built on them.\<close>

definition ToInt32 :: "int \<Rightarrow> int" where
  "ToInt32 x = (let int32bit = x mod 2 ^ 32
                in if int32bit \<ge> 2 ^ 31 then int32bit - 2 ^ 32 else int32bit)"

definition ToUint32 :: "int \<Rightarrow> int" where
  "ToUint32 x = x mod 2 ^ 32"

definition js_shl :: "int \<Rightarrow> int \<Rightarrow> int" where
  "js_shl a b = ToInt32 (ToInt32 a * 2 ^ nat (ToUint32 b mod 32))"

definition js_and :: "int \<Rightarrow> int \<Rightarrow> int" where
  "js_and a b = ToInt32 a AND ToInt32 b"

definition js_ushr :: "int \<Rightarrow> int \<Rightarrow> int" where
  "js_ushr a b = ToUint32 a div 2 ^ nat (ToUint32 b mod 32)"

section \<open>The submission endpoint\<close>

subsection \<open>Checksum, score and name\<close>

definition VALID_CLASSES :: "jsstring list" where
  "VALID_CLASSES = map js [''pugilist'', ''berserker'', ''elementalist'', ''trapper'',
     ''beastmaster'', ''necromancer'']"

definition VALID_RACES :: "jsstring list" where
  "VALID_RACES = map js [''human'', ''primal'', ''halfElf'', ''goblin'']"

definition SECRET :: jsstring where
  "SECRET = js ''dcc_survivors_2024''"

text \<open>\<open>Array.prototype.join\<close> on elements already converted to strings.\<close>

fun join :: "jsstring \<Rightarrow> jsstring list \<Rightarrow> jsstring" where
  "join sep [] = []"
| "join sep [x] = x"
| "join sep (x # y # ys) = x @ sep @ join sep (y # ys)"

text \<open>The loop of \<open>computeChecksum\<close>: one round per code unit.\<close>

definition hashStep :: "int \<Rightarrow> nat \<Rightarrow> int" where
  "hashStep hash c = (let h = (js_shl hash 5 + hash) + int c in js_and h h)"

definition computeChecksum ::
  "jsstring \<Rightarrow> int \<Rightarrow> int \<Rightarrow> int \<Rightarrow> rat \<Rightarrow> int \<Rightarrow> int \<Rightarrow> int \<Rightarrow> jsstring \<Rightarrow> jsstring \<Rightarrow> jsstring" where
  "computeChecksum name floor' kills level time bossKills bbEarned viewers classId raceId =
     (let str = join (js ''|'')
                  [name, intToString floor', intToString kills, intToString level,
                   intToString \<lfloor>time\<rfloor>, intToString bossKills, intToString bbEarned,
                   intToString viewers, classId, raceId, SECRET];
          hash = foldl hashStep 5381 str
      in natToString 16 (nat (js_ushr hash 0)))"

record data =
  d_floor :: int
  d_kills :: int
  d_level :: int
  d_time :: rat
  d_bossKills :: int
  d_viewers :: int
  d_victory :: bool

definition computeScore :: "data \<Rightarrow> int" where
  "computeScore d =
     (d_floor d * 1000)
     + (d_bossKills d * 500)
     + (d_kills d * 2)
     + (d_level d * 50)
     + \<lfloor>(of_int (d_viewers d) :: rat) / 100\<rfloor>
     + (if d_victory d then 5000 else 0)
     - \<lfloor>d_time d / 10\<rfloor>"

text \<open>
  \<open>sanitizeName\<close>. \<open>stripTags\<close> is the replacement of every match of \<open><[^>]*>\<close>: a
  \<open><\<close> with a \<open>>\<close> somewhere after it is removed together with everything up to the
  first such \<open>>\<close>. \<open>keepChar\<close> is the complement of the class of the second
  replacement.
\<close>

function stripTags :: "jsstring \<Rightarrow> jsstring" where
  "stripTags [] = []"
| "stripTags (c # cs) =
     (if c = 60 \<and> 62 \<in> set cs then stripTags (tl (dropWhile (\<lambda>d. d \<noteq> 62) cs))
      else c # stripTags cs)"
  by pat_completeness auto
termination
proof (relation "measure length")
  fix c :: nat and cs :: "nat list"
  have "length (tl (dropWhile (\<lambda>d. d \<noteq> 62) cs)) \<le> length cs"
    using length_dropWhile_le [of "\<lambda>d. d \<noteq> 62" cs] by simp
  then show "(tl (dropWhile (\<lambda>d. d \<noteq> 62) cs), c # cs) \<in> measure length"
    by simp
qed simp_all

definition keepChar :: "nat \<Rightarrow> bool" where
  "keepChar c \<longleftrightarrow> isWord c \<or> isSpace c \<or> c = 45 \<or> c = 95 \<or> c = 46 \<or> c = 33"

definition sanitizeName :: "jsval \<Rightarrow> jsstring" where
  "sanitizeName name =
     (case name of
        JStr s \<Rightarrow>
          (let clean = trim (filter keepChar (stripTags s))
           in if length clean < 2 then []
              else if length clean > 16 then take 16 clean
              else clean)
      | _ \<Rightarrow> [])"

text \<open>\<open>toLowerCase\<close> on the letters of ASCII. A sanitised name has no other letter; for
  letters beyond ASCII the case mapping of the language is not modelled.\<close>

definition toLowerCase :: "jsstring \<Rightarrow> jsstring" where
  "toLowerCase s = map (\<lambda>c. if 65 \<le> c \<and> c \<le> 90 then c + 32 else c) s"

subsection \<open>Requests, responses and validation\<close>

datatype http_method = OPTIONS | GET | POST | OTHER

type_synonym body = "string \<Rightarrow> jsval"

record request =
  req_method :: http_method
  x_forwarded_for :: "jsstring option"
  x_real_ip :: "jsstring option"
  req_body :: "body option"

text \<open>The two values the handler draws from its environment: \<open>crypto.randomUUID()\<close>
  and \<open>Date.now()\<close>.\<close>

record env =
  env_uuid :: jsstring
  env_now :: int

datatype error =
    MethodNotAllowed
  | BurstLimit
  | DailyLimit
  | MissingBody
  | InvalidName
  | InvalidFloor
  | InvalidKills
  | InvalidLevel
  | InvalidTime
  | InvalidBossKills
  | InvalidBBEarned
  | InvalidViewers
  | InvalidClass
  | InvalidRace
  | InvalidVictoryClaim
  | InvalidChecksum
  | InternalError

fun status_of :: "error \<Rightarrow> nat" where
  "status_of MethodNotAllowed = 405"
| "status_of BurstLimit = 429"
| "status_of DailyLimit = 429"
| "status_of InternalError = 500"
| "status_of _ = 400"

fun message_of :: "error \<Rightarrow> string" where
  "message_of MethodNotAllowed = ''Method not allowed''"
| "message_of BurstLimit = ''Too many submissions. Wait 30 seconds.''"
| "message_of DailyLimit = ''Daily submission limit reached.''"
| "message_of MissingBody = ''Missing request body''"
| "message_of InvalidName = ''Invalid name (2-16 characters required)''"
| "message_of InvalidFloor = ''Invalid floor (1-9)''"
| "message_of InvalidKills = ''Invalid kills''"
| "message_of InvalidLevel = ''Invalid level''"
| "message_of InvalidTime = ''Invalid time''"
| "message_of InvalidBossKills = ''Invalid boss kills''"
| "message_of InvalidBBEarned = ''Invalid BB earned''"
| "message_of InvalidViewers = ''Invalid viewers''"
| "message_of InvalidClass = ''Invalid class''"
| "message_of InvalidRace = ''Invalid race''"
| "message_of InvalidVictoryClaim = ''Invalid victory claim''"
| "message_of InvalidChecksum = ''Invalid checksum''"
| "message_of InternalError = ''Internal server error''"

text \<open>The answers with status 200: the empty answer to a preflight, and
  \<open>{success, id, score, rank}\<close>.\<close>

datatype reply = Preflight | Submitted jsstring int "int option"

text \<open>The local constants of the handler once every check has passed.\<close>

record fields =
  f_name :: jsstring
  f_floor :: int
  f_kills :: int
  f_level :: int
  f_time :: rat
  f_bossKills :: int
  f_bbEarned :: int
  f_viewers :: int
  f_classId :: jsstring
  f_raceId :: jsstring
  f_victory :: bool
  f_checksum :: jsstring

text \<open>Lines 78 to 125 of the handler: the fields are read from the body, then checked
  one after the other; the first check that fails answers.\<close>

definition validate :: "body \<Rightarrow> error + fields" where
  "validate body =
     (let name = sanitizeName (body ''name'') in
      if name = [] then Inl InvalidName
      else
        let floor' = parseInt (body ''floor'');
            kills = parseInt (body ''kills'');
            level = parseInt (body ''level'');
            time = parseFloat (body ''time'');
            bossKills = parseInt (body ''bossKills'');
            bbEarned = parseInt (body ''bbEarned'');
            viewers = parseInt (body ''viewers'');
            classId = ToString (js_or (body ''classId'') (JStr []));
            raceId = ToString (js_or (body ''raceId'') (JStr []));
            victory = truthy (body ''victory'');
            checksum = ToString (js_or (body ''checksum'') (JStr []))
        in
        if isNaN floor' \<or> js_lt floor' (Some 1) \<or> js_gt floor' (Some 9) then Inl InvalidFloor
        else if isNaN kills \<or> js_lt kills (Some 0) \<or> js_gt kills (Some 5000) then Inl InvalidKills
        else if isNaN level \<or> js_lt level (Some 1) \<or> js_gt level (Some 60) then Inl InvalidLevel
        else if isNaN time \<or> js_lt time (Some 20) then Inl InvalidTime
        else if isNaN bossKills \<or> js_lt bossKills (Some 0) \<or> js_gt bossKills floor'
          then Inl InvalidBossKills
        else if isNaN bbEarned \<or> js_lt bbEarned (Some 0) then Inl InvalidBBEarned
        else if isNaN viewers \<or> js_lt viewers (Some 0) then Inl InvalidViewers
        else if classId \<notin> set VALID_CLASSES then Inl InvalidClass
        else if raceId \<notin> set VALID_RACES then Inl InvalidRace
        else if victory \<and> (js_lt floor' (Some 9) \<or> js_lt bossKills (Some 9))
          then Inl InvalidVictoryClaim
        else Inr \<lparr>f_name = name, f_floor = the floor', f_kills = the kills,
                  f_level = the level, f_time = the time, f_bossKills = the bossKills,
                  f_bbEarned = the bbEarned, f_viewers = the viewers,
                  f_classId = classId, f_raceId = raceId, f_victory = victory,
                  f_checksum = checksum\<rparr>)"

subsection \<open>The store\<close>

text \<open>
  The key and sorted-set store is a collaborator outside the repository. Its operations
  are modelled from the interface the specification assumes of it (increment, expire,
  hash set and get, sorted-set insert, descending range, descending rank and
  cardinality), with the behaviour of the Redis commands the handlers call. The keys
  of the three kinds of value never collide (\<open>rl:\<close> and \<open>dl:\<close> counters, \<open>run:\<close> hashes,
  the sorted sets \<open>leaderboard\<close> and \<open>player:\<close>), so each kind has a map of its own.
  A key with an expiry is gone once the clock (in seconds) has reached it. A request is
  served at one instant of the clock, and calls to the store do not fail.
\<close>

record run =
  r_id :: jsstring
  r_name :: jsstring
  r_score :: int
  r_floor :: int
  r_kills :: int
  r_level :: int
  r_time :: int
  r_bossKills :: int
  r_bbEarned :: int
  r_viewers :: int
  r_classId :: jsstring
  r_raceId :: jsstring
  r_victory :: jsstring
  r_timestamp :: int

type_synonym zset = "(jsstring \<times> int) list"

record store =
  clock :: nat
  counters :: "jsstring \<Rightarrow> (int \<times> nat option) option"
  hashes :: "jsstring \<Rightarrow> (run \<times> nat option) option"
  zsets :: "jsstring \<Rightarrow> zset"

definition live :: "store \<Rightarrow> nat option \<Rightarrow> bool" where
  "live st ex = (case ex of None \<Rightarrow> True | Some t \<Rightarrow> clock st < t)"

text \<open>Modelled from the spec: \<open>increment(key)\<close>, the Redis command INCR. A missing or
  expired counter starts again from 1 with no expiry.\<close>

definition getCounter :: "store \<Rightarrow> jsstring \<Rightarrow> (int \<times> nat option) option" where
  "getCounter st key =
     (case counters st key of
        None \<Rightarrow> None
      | Some (n, ex) \<Rightarrow> if live st ex then Some (n, ex) else None)"

definition incr :: "store \<Rightarrow> jsstring \<Rightarrow> store \<times> int" where
  "incr st key =
     (case getCounter st key of
        None \<Rightarrow> (st\<lparr>counters := (counters st)(key \<mapsto> (1, None))\<rparr>, 1)
      | Some (n, ex) \<Rightarrow> (st\<lparr>counters := (counters st)(key \<mapsto> (n + 1, ex))\<rparr>, n + 1))"

text \<open>Modelled from the spec: \<open>expire(key, seconds)\<close> on a counter and on a hash.\<close>

definition expire :: "store \<Rightarrow> jsstring \<Rightarrow> nat \<Rightarrow> store" where
  "expire st key seconds =
     (case getCounter st key of
        None \<Rightarrow> st
      | Some (n, ex) \<Rightarrow> st\<lparr>counters := (counters st)(key \<mapsto> (n, Some (clock st + seconds)))\<rparr>)"

definition hgetall :: "store \<Rightarrow> jsstring \<Rightarrow> run option" where
  "hgetall st key =
     (case hashes st key of
        None \<Rightarrow> None
      | Some (r, ex) \<Rightarrow> if live st ex then Some r else None)"

text \<open>Modelled from the spec: \<open>hashSet(key, fields)\<close>. The handler writes every field of
  the hash at once; a live hash keeps its expiry.\<close>

definition hset :: "store \<Rightarrow> jsstring \<Rightarrow> run \<Rightarrow> store" where
  "hset st key r =
     (case hashes st key of
        None \<Rightarrow> st\<lparr>hashes := (hashes st)(key \<mapsto> (r, None))\<rparr>
      | Some (r0, ex) \<Rightarrow>
          st\<lparr>hashes := (hashes st)(key \<mapsto> (r, if live st ex then ex else None))\<rparr>)"

definition expireHash :: "store \<Rightarrow> jsstring \<Rightarrow> nat \<Rightarrow> store" where
  "expireHash st key seconds =
     (case hgetall st key of
        None \<Rightarrow> st
      | Some r \<Rightarrow> st\<lparr>hashes := (hashes st)(key \<mapsto> (r, Some (clock st + seconds)))\<rparr>)"

text \<open>Modelled from the spec: the sorted set. A member occurs once; the descending order
  is by score, and by member among equal scores.\<close>

definition zaddSet :: "zset \<Rightarrow> int \<Rightarrow> jsstring \<Rightarrow> zset" where
  "zaddSet z score member = (member, score) # filter (\<lambda>p. fst p \<noteq> member) z"

definition zadd :: "store \<Rightarrow> jsstring \<Rightarrow> int \<Rightarrow> jsstring \<Rightarrow> store" where
  "zadd st key score member = st\<lparr>zsets := (zsets st)(key := zaddSet (zsets st key) score member)\<rparr>"

definition descending :: "zset \<Rightarrow> zset" where
  "descending z = rev (sort_key (\<lambda>p. (snd p, fst p)) z)"


fun indexOf :: "'a \<Rightarrow> 'a list \<Rightarrow> int option" where
  "indexOf x [] = None"
| "indexOf x (y # ys) = (if x = y then Some 0 else map_option (\<lambda>i. i + 1) (indexOf x ys))"

definition zrevrank :: "store \<Rightarrow> jsstring \<Rightarrow> jsstring \<Rightarrow> int option" where
  "zrevrank st key member = indexOf member (map fst (descending (zsets st key)))"


text \<open>Time passing between two requests.\<close>

definition elapse :: "nat \<Rightarrow> store \<Rightarrow> store" where
  "elapse seconds st = st\<lparr>clock := clock st + seconds\<rparr>"

subsection \<open>The handler of a submission\<close>

text \<open>The identity of the client: the first entry of the forwarded-address header, of
  the real-address header when the former is missing or empty, of \<open>unknown\<close>
  otherwise.\<close>

definition headerOr :: "jsstring option \<Rightarrow> jsstring \<Rightarrow> jsstring" where
  "headerOr h d = (case h of None \<Rightarrow> d | Some v \<Rightarrow> if v = [] then d else v)"

definition clientIp :: "request \<Rightarrow> jsstring" where
  "clientIp req =
     trim (takeWhile (\<lambda>c. c \<noteq> 44)
       (headerOr (x_forwarded_for req) (headerOr (x_real_ip req) (js ''unknown''))))"

text \<open>Lines 56 to 70: the burst counter, then the daily counter. A counter that has
  just been created gets its expiry; the burst limit answers before the daily counter
  is touched.\<close>

definition rateLimit :: "store \<Rightarrow> jsstring \<Rightarrow> store \<times> error option" where
  "rateLimit st ip =
     (let rateLimitKey = js ''rl:'' @ ip;
          (st1, current) = incr st rateLimitKey;
          st2 = (if current = 1 then expire st1 rateLimitKey 30 else st1)
      in
      if current > 2 then (st2, Some BurstLimit)
      else
        let dailyKey = js ''dl:'' @ ip;
            (st3, dailyCount) = incr st2 dailyKey;
            st4 = (if dailyCount = 1 then expire st3 dailyKey 86400 else st3)
        in
        if dailyCount > 20 then (st4, Some DailyLimit)
        else (st4, None))"

text \<open>Lines 133 to 169: the score, the record of the run, the two rankings and the
  rank.\<close>

definition persist :: "store \<Rightarrow> env \<Rightarrow> fields \<Rightarrow> store \<times> reply" where
  "persist st env f =
     (let data = \<lparr>d_floor = f_floor f, d_kills = f_kills f, d_level = f_level f,
                  d_time = f_time f, d_bossKills = f_bossKills f,
                  d_viewers = f_viewers f, d_victory = f_victory f\<rparr>;
          score = computeScore data;
          id' = env_uuid env;
          timestamp = env_now env;
          runData = \<lparr>r_id = id', r_name = f_name f, r_score = score,
                     r_floor = f_floor f, r_kills = f_kills f, r_level = f_level f,
                     r_time = \<lfloor>f_time f + 1 / 2\<rfloor>,
                     r_bossKills = f_bossKills f, r_bbEarned = f_bbEarned f,
                     r_viewers = f_viewers f, r_classId = f_classId f,
                     r_raceId = f_raceId f,
                     r_victory = (if f_victory f then js ''true'' else js ''false''),
                     r_timestamp = timestamp\<rparr>;
          st1 = hset st (js ''run:'' @ id') runData;
          st2 = expireHash st1 (js ''run:'' @ id') 7776000;
          st3 = zadd st2 (js ''leaderboard'') score id';
          normalizedName = trim (toLowerCase (f_name f));
          st4 = zadd st3 (js ''player:'' @ normalizedName) score id';
          rank = zrevrank st4 (js ''leaderboard'') id'
      in (st4, Submitted id' score (case rank of None \<Rightarrow> None | Some r \<Rightarrow> Some (r + 1))))"

text \<open>The handler: the method, the rate limiter, the body, the validation (lines 78 to
  125), the checksum (lines 127 to 131) and the writes.\<close>

definition handler :: "store \<Rightarrow> env \<Rightarrow> request \<Rightarrow> store \<times> (error + reply)" where
  "handler st env req =
     (if req_method req = OPTIONS then (st, Inr Preflight)
      else if req_method req \<noteq> POST then (st, Inl MethodNotAllowed)
      else
        case rateLimit st (clientIp req) of
          (st', Some e) \<Rightarrow> (st', Inl e)
        | (st', None) \<Rightarrow>
            (case req_body req of
               None \<Rightarrow> (st', Inl MissingBody)
             | Some body \<Rightarrow>
                 (case validate body of
                    Inl e \<Rightarrow> (st', Inl e)
                  | Inr f \<Rightarrow>
                      let expectedChecksum =
                            computeChecksum (f_name f) (f_floor f) (f_kills f) (f_level f)
                              (f_time f) (f_bossKills f) (f_bbEarned f) (f_viewers f)
                              (f_classId f) (f_raceId f)
                      in
                      if f_checksum f \<noteq> expectedChecksum then (st', Inl InvalidChecksum)
                      else
                        let (st'', r) = persist st' env f in (st'', Inr r))))"

section \<open>The leaderboard endpoint\<close>










section \<open>Sample requests\<close>

text \<open>A store with no key, and the submission of the specification's example (floor 9,
  nine bosses, 500 kills, level 60, 300 viewers, 600 seconds, a victory) with the
  checksum of its fields.\<close>

definition emptyStore :: store where
  "emptyStore = \<lparr>clock = 0, counters = (\<lambda>k. None), hashes = (\<lambda>k. None), zsets = (\<lambda>k. [])\<rparr>"

definition exampleBody :: body where
  "exampleBody = (\<lambda>k. JUndefined)
     (''name'' := JStr (js ''Carl''), ''floor'' := JNum 9 0, ''kills'' := JNum 500 0,
      ''level'' := JNum 60 0, ''time'' := JNum 600 0, ''bossKills'' := JNum 9 0,
      ''bbEarned'' := JNum 0 0, ''viewers'' := JNum 300 0,
      ''classId'' := JStr (js ''pugilist''), ''raceId'' := JStr (js ''human''),
      ''victory'' := JBool True, ''checksum'' := JStr (js ''e391df02''))"

definition exampleReq :: request where
  "exampleReq = \<lparr>req_method = POST, x_forwarded_for = Some (js ''10.0.0.1, 10.0.0.2''),
     x_real_ip = None, req_body = Some exampleBody\<rparr>"

definition exampleEnv :: env where
  "exampleEnv = \<lparr>env_uuid = js ''run-1'', env_now = 1700000000000\<rparr>"

definition exampleFields :: fields where
  "exampleFields = \<lparr>f_name = js ''Carl'', f_floor = 9, f_kills = 500, f_level = 60,
     f_time = 600, f_bossKills = 9, f_bbEarned = 0, f_viewers = 300,
     f_classId = js ''pugilist'', f_raceId = js ''human'', f_victory = True,
     f_checksum = js ''e391df02''\<rparr>"

section \<open>The checksum in the words of the specification\<close>

text \<open>
  The checksum as the specification words it: a hash over 32-bit words that starts at
  5381 and takes \<open>hash * 33 + charCode\<close> for each code unit, read unsigned and written
  in hexadecimal, over the validated fields and the secret joined by \<open>|\<close>.
\<close>

definition specHash :: "jsstring \<Rightarrow> 32 word" where
  "specHash str = foldl (\<lambda>hash c. hash * 33 + of_nat c) 5381 str"

definition specChecksum :: "fields \<Rightarrow> jsstring" where
  "specChecksum f =
     natToString 16 (unat (specHash (join (js ''|'')
       [f_name f, intToString (f_floor f), intToString (f_kills f), intToString (f_level f),
        intToString \<lfloor>f_time f\<rfloor>, intToString (f_bossKills f), intToString (f_bbEarned f),
        intToString (f_viewers f), f_classId f, f_raceId f, js ''dcc_survivors_2024''])))"

section \<open>The order of the checks in the words of the specification\<close>

text \<open>
  The eleven checks in the order the specification lists them, each with the error it
  answers: a number field passes when it parses to a number inRange the stated bounds.
  \<open>firstFailure\<close> is the error of the first check of the list that the body fails.
\<close>

definition inRange :: "'a::linorder \<Rightarrow> 'a \<Rightarrow> 'a option \<Rightarrow> bool" where
  "inRange lo hi x = (case x of None \<Rightarrow> False | Some n \<Rightarrow> lo \<le> n \<and> n \<le> hi)"

definition notBelow :: "'a::linorder \<Rightarrow> 'a option \<Rightarrow> bool" where
  "notBelow lo x = (case x of None \<Rightarrow> False | Some n \<Rightarrow> lo \<le> n)"



section \<open>Numeric strings\<close>





definition fieldErrors :: "error list" where
  "fieldErrors = [InvalidName, InvalidFloor, InvalidKills, InvalidLevel, InvalidTime,
     InvalidBossKills, InvalidBBEarned, InvalidViewers]"

section \<open>Sequences of requests\<close>

text \<open>
  The value a counter shows to the next increment (0 when it is missing or expired), and
  a run of submissions: before each request some seconds pass on the clock of the
  store, then the handler serves it on the state the previous one left.
\<close>

definition counterValue :: "store \<Rightarrow> jsstring \<Rightarrow> int" where
  "counterValue st key = (case getCounter st key of None \<Rightarrow> 0 | Some (n, ex) \<Rightarrow> n)"

fun serve :: "store \<Rightarrow> (nat \<times> env \<times> request) list \<Rightarrow> store \<times> (error + reply) list" where
  "serve st [] = (st, [])"
| "serve st ((seconds, env, req) # rest) =
     (let (st1, r) = handler (elapse seconds st) env req;
          (st2, rs) = serve st1 rest
      in (st2, r # rs))"

text \<open>One counter of the limiter: the increment, and the expiry when the increment
  answers 1. The limiter does this to the burst counter and then to the daily one.\<close>

definition expiryOf :: "store \<Rightarrow> jsstring \<Rightarrow> nat option" where
  "expiryOf st key = (case getCounter st key of None \<Rightarrow> None | Some (n, ex) \<Rightarrow> ex)"

definition touch :: "store \<Rightarrow> jsstring \<Rightarrow> nat \<Rightarrow> store \<times> int" where
  "touch st key seconds =
     (let (st1, c) = incr st key in (if c = 1 then expire st1 key seconds else st1, c))"

text \<open>A store in which the client of the example has used up its burst: two submissions
  counted, the counter live for another 30 seconds.\<close>

definition burstStore :: store where
  "burstStore = emptyStore\<lparr>counters :=
     (\<lambda>k. None)(js ''rl:10.0.0.1'' \<mapsto> (2, Some 30), js ''dl:10.0.0.1'' \<mapsto> (2, Some 86400))\<rparr>"

text \<open>A store in which the client of the example has used up its day: twenty
  submissions counted, no live burst counter.\<close>

definition dailyStore :: store where
  "dailyStore = emptyStore\<lparr>counters := (\<lambda>k. None)(js ''dl:10.0.0.1'' \<mapsto> (20, Some 86400))\<rparr>"

section \<open>States of the rankings\<close>


fun hydrated :: "store \<Rightarrow> zset \<Rightarrow> (jsstring \<times> run) list" where
  "hydrated st [] = []"
| "hydrated st (item # rest) =
     (case hgetall st (js ''run:'' @ fst item) of
        None \<Rightarrow> hydrated st rest
      | Some d \<Rightarrow> if r_name d \<noteq> [] then (fst item, d) # hydrated st rest
                  else hydrated st rest)"



section \<open>The name under which a run is filed\<close>

text \<open>
  The key of the ranking of a player as the submission handler computes it from a body:
  the sanitised name, in lower case, trimmed (lines 78 and 158).
\<close>

definition normalizedName :: "body \<Rightarrow> jsstring" where
  "normalizedName b = trim (toLowerCase (sanitizeName (b ''name'')))"






section \<open>Properties\<close>

subsection \<open>Evaluation\<close>

lemma replicate_numeral: "replicate (numeral k) x = x # replicate (pred_numeral k) x"
  by (simp add: numeral_eq_Suc)

lemmas num_defs = intToString_def numToString_def posToString_def natToString.simps
  strip10.simps digitChar_def js_def Let_def replicate_numeral


lemmas parse_defs = parseInt_def parseIntStr_def parseFloat_def parseFloatStr_def
  trimStart_def isSpace_def isDigit_def isHexDigit_def digitsVal_def digitVal_def
  exponentPart_def pow10_def

lemmas name_defs = sanitizeName_def trim_def keepChar_def isWord_def isSpace_def
  isDigit_def js_def

lemmas validate_defs = validate_def name_defs parse_defs num_defs isNaN_def js_lt_def
  js_gt_def js_or_def VALID_CLASSES_def VALID_RACES_def

lemmas store_defs = live_def getCounter_def incr_def expire_def hgetall_def hset_def
  expireHash_def zaddSet_def zadd_def

lemma example_validate: "validate exampleBody = Inr exampleFields"
  by (simp add: validate_defs exampleBody_def exampleFields_def)

lemma example_clientIp: "clientIp exampleReq = js ''10.0.0.1''"
  by (simp add: clientIp_def exampleReq_def headerOr_def trim_def isSpace_def js_def)


subsection \<open>The store operations, field by field\<close>

lemma incr_frame [simp]:
  "hashes (fst (incr st k)) = hashes st" "zsets (fst (incr st k)) = zsets st"
  "clock (fst (incr st k)) = clock st"
  by (simp_all add: incr_def split: option.splits)

lemma expire_frame [simp]:
  "hashes (expire st k n) = hashes st" "zsets (expire st k n) = zsets st"
  "clock (expire st k n) = clock st"
  by (simp_all add: expire_def split: option.splits)

lemma hset_frame [simp]:
  "counters (hset st k r) = counters st" "zsets (hset st k r) = zsets st"
  "clock (hset st k r) = clock st"
  by (simp_all add: hset_def split: option.splits)

lemma expireHash_frame [simp]:
  "counters (expireHash st k n) = counters st" "zsets (expireHash st k n) = zsets st"
  "clock (expireHash st k n) = clock st"
  by (simp_all add: expireHash_def split: option.splits)

lemma zadd_frame [simp]:
  "counters (zadd st k s m) = counters st" "hashes (zadd st k s m) = hashes st"
  "clock (zadd st k s m) = clock st"
  "zsets (zadd st k s m) = (zsets st)(k := zaddSet (zsets st k) s m)"
  by (simp_all add: zadd_def)

lemma live_clock: "clock st' = clock st \<Longrightarrow> live st' ex = live st ex"
  by (cases ex) (simp_all add: live_def)

lemma live_zadd [simp]: "live (zadd st k s m) ex = live st ex"
  by (rule live_clock) simp

lemma hgetall_zadd [simp]: "hgetall (zadd st k s m) k' = hgetall st k'"
  by (simp add: hgetall_def split: option.splits)


lemma hgetall_expireHash [simp]:
  "hgetall st k = Some r \<Longrightarrow> 0 < n \<Longrightarrow> hgetall (expireHash st k n) k = Some r"
  by (simp add: hgetall_def expireHash_def live_def split: option.splits)

lemma hashes_hset_other [simp]: "k' \<noteq> k \<Longrightarrow> hashes (hset st k r) k' = hashes st k'"
  by (simp add: hset_def split: option.splits)

lemma hashes_expireHash_other [simp]:
  "k' \<noteq> k \<Longrightarrow> hashes (expireHash st k n) k' = hashes st k'"
  by (simp add: expireHash_def split: option.splits)

lemma rateLimit_frame:
  "hashes (fst (rateLimit st ip)) = hashes st"
  "zsets (fst (rateLimit st ip)) = zsets st"
  "clock (fst (rateLimit st ip)) = clock st"
  by (simp_all add: rateLimit_def Let_def split_beta)

lemma persist_frame:
  "counters (fst (persist st env f)) = counters st"
  "clock (fst (persist st env f)) = clock st"
  by (simp_all add: persist_def Let_def)

lemma leaderboard_neq_player [simp]: "js ''leaderboard'' \<noteq> js ''player:'' @ n" "js ''player:'' @ n \<noteq> js ''leaderboard''"
  by (simp_all add: js_def)





subsection \<open>The example submission and the shape of an accepted request\<close>

lemma example_rateLimit: "snd (rateLimit emptyStore (js ''10.0.0.1'')) = None"
  by (simp add: rateLimit_def emptyStore_def store_defs js_def Let_def)

lemma exampleReq_simps [simp]: "req_method exampleReq = POST" "req_body exampleReq = Some exampleBody"
  by (simp_all add: exampleReq_def)




subsection \<open>The persisted score\<close>



subsection \<open>What validation establishes\<close>


subsection \<open>The checksum\<close>










lemma specChecksum_upd [simp]: "specChecksum (f\<lparr>f_checksum := c\<rparr>) = specChecksum f"
  by (simp add: specChecksum_def)



subsection \<open>Evaluating validation on the example\<close>

lemma js_inject [simp]: "js a = js b \<longleftrightarrow> a = b"
proof -
  have "inj (of_char :: char \<Rightarrow> nat)"
    by (rule injI) simp
  then show ?thesis
    by (simp add: js_def inj_map_eq_map)
qed

lemma js_Nil [simp]: "js a = [] \<longleftrightarrow> a = []" "[] = js a \<longleftrightarrow> a = []"
  by (auto simp: js_def)

lemma example_parse:
  "parseInt (JNum 9 0) = Some 9" "parseInt (JNum 8 0) = Some 8" "parseInt (JNum 3 0) = Some 3"
  "parseInt (JNum 4 0) = Some 4" "parseInt (JNum 1 0) = Some 1"
  "parseInt (JNum 500 0) = Some 500" "parseInt (JNum 60 0) = Some 60"
  "parseInt (JNum 0 0) = Some 0" "parseInt (JNum 300 0) = Some 300"
  "parseFloat (JNum 600 0) = Some 600"
  "parseInt JUndefined = None" "parseFloat JUndefined = None"
  by (simp_all add: parse_defs num_defs)

lemma example_name: "sanitizeName (JStr (js ''Carl'')) = js ''Carl''"
  by (simp add: name_defs)

lemmas example_defs = validate_def exampleBody_def example_parse example_name isNaN_def
  js_lt_def js_gt_def js_or_def VALID_CLASSES_def VALID_RACES_def Let_def

subsection \<open>The victory rule\<close>

text \<open>
  Claim C3. For a body whose \<open>victory\<close> is truthy, validation succeeds (the request
  reaches the checksum stage) exactly when every other check passes, the floor is 9 and
  bossKills is at least 9; when the other checks pass and the floor or bossKills is
  lower, the answer is the victory error; in every case where the floor is not 9 or
  bossKills is below 9 the answer is an error of status 400. A body whose \<open>victory\<close>
  is falsy is never answered with the victory error: it is validated as with
  \<open>victory = false\<close>.
\<close>

theorem C3_victory_rule:
  "(truthy (b ''victory'') \<longrightarrow>
      ((\<exists>f. validate b = Inr f) \<longleftrightarrow>
         (\<exists>f0. validate (b(''victory'' := JBool False)) = Inr f0)
         \<and> parseInt (b ''floor'') = Some 9
         \<and> (\<exists>k. parseInt (b ''bossKills'') = Some k \<and> 9 \<le> k))
      \<and> ((\<exists>f0. validate (b(''victory'' := JBool False)) = Inr f0)
           \<and> \<not> (parseInt (b ''floor'') = Some 9
                  \<and> (\<exists>k. parseInt (b ''bossKills'') = Some k \<and> 9 \<le> k))
           \<longrightarrow> validate b = Inl InvalidVictoryClaim)
      \<and> (\<not> (parseInt (b ''floor'') = Some 9
               \<and> (\<exists>k. parseInt (b ''bossKills'') = Some k \<and> 9 \<le> k))
           \<longrightarrow> (\<exists>e. validate b = Inl e \<and> status_of e = 400)))
   \<and> (\<not> truthy (b ''victory'') \<longrightarrow>
        validate b \<noteq> Inl InvalidVictoryClaim
        \<and> validate b = validate (b(''victory'' := JBool False)))"
  by (auto simp: validate_def Let_def isNaN_def js_lt_def js_gt_def split: option.splits)

theorem C3_victory_rule_witness:
  "truthy (exampleBody ''victory'')
   \<and> (\<exists>f. validate exampleBody = Inr f)
   \<and> validate (exampleBody(''bossKills'' := JNum 8 0)) = Inl InvalidVictoryClaim
   \<and> (\<exists>e. validate (exampleBody(''floor'' := JNum 8 0)) = Inl e \<and> status_of e = 400)
   \<and> (\<exists>f. validate (exampleBody(''floor'' := JNum 3 0, ''bossKills'' := JNum 1 0,
          ''victory'' := JBool False)) = Inr f)"
proof -
  let ?b8 = "exampleBody(''bossKills'' := JNum 8 0)"
  let ?f8 = "exampleBody(''floor'' := JNum 8 0)"
  let ?lo = "exampleBody(''floor'' := JNum 3 0, ''bossKills'' := JNum 1 0, ''victory'' := JBool False)"
  have t: "truthy (exampleBody ''victory'')" "truthy (?b8 ''victory'')" "truthy (?f8 ''victory'')"
    "\<not> truthy (?lo ''victory'')"
    by (simp_all add: exampleBody_def)
  have p: "parseInt (?b8 ''bossKills'') = Some 8" "parseInt (?b8 ''floor'') = Some 9"
    "parseInt (?f8 ''floor'') = Some 8"
    by (simp_all add: exampleBody_def example_parse)
  have o8: "\<exists>f0. validate (?b8(''victory'' := JBool False)) = Inr f0"
    by (simp add: example_defs)
  have lo: "\<exists>f0. validate (?lo(''victory'' := JBool False)) = Inr f0"
    by (simp add: example_defs)
  have 1: "\<exists>f. validate exampleBody = Inr f"
    by (simp add: example_validate)
  from C3_victory_rule [of ?b8] t p o8
  have 2: "validate ?b8 = Inl InvalidVictoryClaim"
    by simp
  from C3_victory_rule [of ?f8] t p
  have 3: "\<exists>e. validate ?f8 = Inl e \<and> status_of e = 400"
    by simp
  from C3_victory_rule [of ?lo] t lo
  have 4: "\<exists>f. validate ?lo = Inr f"
    by simp
  from t(1) 1 2 3 4 show ?thesis
    by blast
qed

subsection \<open>The order of the checks\<close>

lemma chk_range: "(isNaN x \<or> js_lt x (Some lo) \<or> js_gt x (Some hi)) = (\<not> inRange lo hi x)"
  by (cases x) (auto simp: isNaN_def js_lt_def js_gt_def inRange_def)

lemma chk_low: "(isNaN x \<or> js_lt x (Some lo)) = (\<not> notBelow lo x)"
  by (cases x) (auto simp: isNaN_def js_lt_def notBelow_def)
lemma validate_chain:
  assumes "parseInt (b ''floor'') = Some fl"
  shows "validate b =
     (if sanitizeName (b ''name'') = [] then Inl InvalidName
      else if \<not> inRange 1 9 (Some fl) then Inl InvalidFloor
      else if \<not> inRange 0 5000 (parseInt (b ''kills'')) then Inl InvalidKills
      else if \<not> inRange 1 60 (parseInt (b ''level'')) then Inl InvalidLevel
      else if \<not> notBelow 20 (parseFloat (b ''time'')) then Inl InvalidTime
      else if \<not> inRange 0 fl (parseInt (b ''bossKills'')) then Inl InvalidBossKills
      else if \<not> notBelow 0 (parseInt (b ''bbEarned'')) then Inl InvalidBBEarned
      else if \<not> notBelow 0 (parseInt (b ''viewers'')) then Inl InvalidViewers
      else if ToString (js_or (b ''classId'') (JStr [])) \<notin> set VALID_CLASSES then Inl InvalidClass
      else if ToString (js_or (b ''raceId'') (JStr [])) \<notin> set VALID_RACES then Inl InvalidRace
      else if truthy (b ''victory'')
              \<and> (js_lt (Some fl) (Some 9) \<or> js_lt (parseInt (b ''bossKills'')) (Some 9))
        then Inl InvalidVictoryClaim
      else Inr \<lparr>f_name = sanitizeName (b ''name''), f_floor = fl,
                f_kills = the (parseInt (b ''kills'')), f_level = the (parseInt (b ''level'')),
                f_time = the (parseFloat (b ''time'')),
                f_bossKills = the (parseInt (b ''bossKills'')),
                f_bbEarned = the (parseInt (b ''bbEarned'')),
                f_viewers = the (parseInt (b ''viewers'')),
                f_classId = ToString (js_or (b ''classId'') (JStr [])),
                f_raceId = ToString (js_or (b ''raceId'') (JStr [])),
                f_victory = truthy (b ''victory''),
                f_checksum = ToString (js_or (b ''checksum'') (JStr []))\<rparr>)"
  unfolding validate_def Let_def assms chk_range chk_low by auto

lemma validate_no_floor:
  assumes "parseInt (b ''floor'') = None"
  shows "validate b = (if sanitizeName (b ''name'') = [] then Inl InvalidName else Inl InvalidFloor)"
  unfolding validate_def Let_def assms by (simp add: isNaN_def)




subsection \<open>Strings in number fields\<close>










subsection \<open>The rate limiter\<close>

lemma rl_neq_dl [simp]: "js ''rl:'' @ a \<noteq> js ''dl:'' @ b" "js ''dl:'' @ a \<noteq> js ''rl:'' @ b"
  by (simp_all add: js_def)

lemma getCounter_cong:
  "counters st' k = counters st k \<Longrightarrow> clock st' = clock st \<Longrightarrow> getCounter st' k = getCounter st k"
  by (simp add: getCounter_def live_clock [of st' st] split: option.splits)

lemma rateLimit_touch:
  "rateLimit st ip =
     (let (st2, current) = touch st (js ''rl:'' @ ip) 30 in
      if current > 2 then (st2, Some BurstLimit)
      else let (st4, dailyCount) = touch st2 (js ''dl:'' @ ip) 86400 in
           if dailyCount > 20 then (st4, Some DailyLimit) else (st4, None))"
  by (simp add: rateLimit_def touch_def Let_def case_prod_beta)

lemma touch_snd: "snd (touch st k s) = counterValue st k + 1"
  by (simp add: touch_def case_prod_beta incr_def counterValue_def split: option.splits)

lemma touch_frame [simp]:
  "hashes (fst (touch st k s)) = hashes st" "zsets (fst (touch st k s)) = zsets st"
  "clock (fst (touch st k s)) = clock st"
  by (simp_all add: touch_def case_prod_beta)

lemma touch_counters:
  "counters (fst (touch st k s)) =
     (counters st)(k \<mapsto> (counterValue st k + 1,
        if counterValue st k + 1 = 1 then Some (clock st + s) else expiryOf st k))"
proof (cases "getCounter st k")
  case None
  then show ?thesis
    by (simp add: touch_def incr_def expire_def getCounter_def live_def counterValue_def
          expiryOf_def)
next
  case (Some p)
  obtain n ex where p: "p = (n, ex)" by (cases p)
  with Some have g: "getCounter st k = Some (n, ex)" by simp
  then have lv: "live st ex"
    by (auto simp: getCounter_def split: option.splits if_splits)
  have lv': "live (st\<lparr>counters := c\<rparr>) ex" for c
    using lv by (simp add: live_clock [of "st\<lparr>counters := c\<rparr>" st])
  show ?thesis
    using g lv'
    by (simp add: touch_def incr_def expire_def getCounter_def counterValue_def expiryOf_def)
qed

lemma getCounter_touch_other:
  "k' \<noteq> k \<Longrightarrow> getCounter (fst (touch st k s)) k' = getCounter st k'"
  by (rule getCounter_cong) (simp_all add: touch_counters)

lemma counterValue_touch_other:
  "k' \<noteq> k \<Longrightarrow> counterValue (fst (touch st k s)) k' = counterValue st k'"
  by (simp add: counterValue_def getCounter_touch_other)

lemma expiryOf_touch_other:
  "k' \<noteq> k \<Longrightarrow> expiryOf (fst (touch st k s)) k' = expiryOf st k'"
  by (simp add: expiryOf_def getCounter_touch_other)

lemma expiryOf_live: "live st (expiryOf st k)"
  by (auto simp: expiryOf_def getCounter_def live_def split: option.splits if_splits)

lemma getCounter_touch_same:
  assumes "0 < s"
  shows "getCounter (fst (touch st k s)) k =
     Some (counterValue st k + 1,
        if counterValue st k + 1 = 1 then Some (clock st + s) else expiryOf st k)"
proof -
  have "live (fst (touch st k s)) (expiryOf st k)"
    using expiryOf_live [of st k] by (simp add: live_clock [of "fst (touch st k s)" st])
  moreover have "live (fst (touch st k s)) (Some (clock st + s))"
    using assms by (simp add: live_def)
  ultimately show ?thesis
    by (simp add: getCounter_def touch_counters)
qed

lemma rateLimit_snd:
  "snd (rateLimit st ip) =
     (if counterValue st (js ''rl:'' @ ip) + 1 > 2 then Some BurstLimit
      else if counterValue st (js ''dl:'' @ ip) + 1 > 20 then Some DailyLimit
      else None)"
  by (simp add: rateLimit_touch Let_def case_prod_beta touch_snd counterValue_touch_other)

lemma rateLimit_fst:
  "fst (rateLimit st ip) =
     (if counterValue st (js ''rl:'' @ ip) + 1 > 2 then fst (touch st (js ''rl:'' @ ip) 30)
      else fst (touch (fst (touch st (js ''rl:'' @ ip) 30)) (js ''dl:'' @ ip) 86400))"
  by (simp add: rateLimit_touch Let_def case_prod_beta touch_snd)

lemma handler_POST_store:
  assumes "req_method req = POST"
  shows "counters (fst (handler st env req)) = counters (fst (rateLimit st (clientIp req)))"
    and "clock (fst (handler st env req)) = clock st"
  using assms
  by (auto simp: handler_def Let_def case_prod_beta persist_frame rateLimit_frame
        split: prod.splits option.splits sum.splits)

lemma handler_error_store:
  assumes "snd (handler st env req) = Inl e"
  shows "hashes (fst (handler st env req)) = hashes st"
    and "zsets (fst (handler st env req)) = zsets st"
  using assms rateLimit_frame [of st "clientIp req"]
  by (auto simp: handler_def Let_def case_prod_beta
        split: prod.splits option.splits sum.splits if_splits)

lemma validate_errors:
  assumes "validate b = Inl e"
  shows "e \<in> set (fieldErrors @ [InvalidClass, InvalidRace, InvalidVictoryClaim])"
proof (cases "parseInt (b ''floor'')")
  case None
  with assms show ?thesis
    by (auto simp: validate_no_floor fieldErrors_def split: if_splits)
next
  case (Some fl)
  from assms show ?thesis
    unfolding validate_chain [of b fl, OF Some]
    by (simp add: fieldErrors_def split: if_splits)
qed

lemma handler_rate_error:
  assumes "req_method req = POST"
  shows "snd (rateLimit st (clientIp req)) = Some e \<Longrightarrow> snd (handler st env req) = Inl e"
    and "snd (handler st env req) = Inl BurstLimit \<Longrightarrow> snd (rateLimit st (clientIp req)) = Some BurstLimit"
    and "snd (handler st env req) = Inl DailyLimit \<Longrightarrow> snd (rateLimit st (clientIp req)) = Some DailyLimit"
proof -
  obtain st1 r where rl: "rateLimit st (clientIp req) = (st1, r)"
    by (cases "rateLimit st (clientIp req)")
  have v: "validate b \<noteq> Inl BurstLimit" "validate b \<noteq> Inl DailyLimit" for b
    using validate_errors [of b] by (auto simp: fieldErrors_def)
  have r: "r = None \<or> r = Some BurstLimit \<or> r = Some DailyLimit"
    using rateLimit_snd [of st "clientIp req"] rl by (auto split: if_splits)
  show "snd (rateLimit st (clientIp req)) = Some e \<Longrightarrow> snd (handler st env req) = Inl e"
    using assms rl by (simp add: handler_def)
  show "snd (handler st env req) = Inl BurstLimit \<Longrightarrow> snd (rateLimit st (clientIp req)) = Some BurstLimit"
    using assms rl r v
    by (auto simp: handler_def Let_def case_prod_beta split: option.splits sum.splits if_splits)
  show "snd (handler st env req) = Inl DailyLimit \<Longrightarrow> snd (rateLimit st (clientIp req)) = Some DailyLimit"
    using assms rl r v
    by (auto simp: handler_def Let_def case_prod_beta split: option.splits sum.splits if_splits)
qed
lemma handler_error_POST:
  assumes "snd (handler st env req) = Inl e" "e \<noteq> MethodNotAllowed"
  shows "req_method req = POST"
  using assms by (auto simp: handler_def split: if_splits)

text \<open>
  Claim C10. A request answered with the burst-limit error found the burst counter
  above 2 after its increment and returned before the daily counter was touched: the
  daily counter of the client, and every counter but its burst counter, is what it was.
\<close>

theorem C10_burst_keeps_daily:
  assumes "snd (handler st env req) = Inl BurstLimit"
  shows "2 < counterValue st (js ''rl:'' @ clientIp req) + 1
    \<and> counters (fst (handler st env req)) (js ''dl:'' @ clientIp req)
        = counters st (js ''dl:'' @ clientIp req)
    \<and> counterValue (fst (handler st env req)) (js ''dl:'' @ clientIp req)
        = counterValue st (js ''dl:'' @ clientIp req)
    \<and> (\<forall>k. k \<noteq> js ''rl:'' @ clientIp req
          \<longrightarrow> counters (fst (handler st env req)) k = counters st k)"
proof -
  let ?ip = "clientIp req"
  let ?st' = "fst (handler st env req)"
  have post: "req_method req = POST"
    using assms by (rule handler_error_POST) simp
  have "snd (rateLimit st ?ip) = Some BurstLimit"
    using handler_rate_error(2) [OF post assms] .
  then have over: "2 < counterValue st (js ''rl:'' @ ?ip) + 1"
    by (simp add: rateLimit_snd split: if_splits)
  then have "fst (rateLimit st ?ip) = fst (touch st (js ''rl:'' @ ?ip) 30)"
    by (simp add: rateLimit_fst)
  then have c: "counters ?st' = counters (fst (touch st (js ''rl:'' @ ?ip) 30))"
    by (simp add: handler_POST_store(1) [OF post])
  have other: "counters ?st' k = counters st k" if "k \<noteq> js ''rl:'' @ ?ip" for k
    using that by (simp add: c touch_counters)
  have "getCounter ?st' (js ''dl:'' @ ?ip) = getCounter st (js ''dl:'' @ ?ip)"
    by (rule getCounter_cong) (simp_all add: other handler_POST_store(2) [OF post])
  then have v: "counterValue ?st' (js ''dl:'' @ ?ip) = counterValue st (js ''dl:'' @ ?ip)"
    by (simp add: counterValue_def)
  from over other [of "js ''dl:'' @ ?ip"] v other show ?thesis
    by simp
qed

lemma burstStore_values:
  "counterValue burstStore (js ''rl:'' @ js ''10.0.0.1'') = 2"
  "counters burstStore (js ''dl:'' @ js ''10.0.0.1'') = Some (2, Some 86400)"
  by (simp_all add: burstStore_def emptyStore_def counterValue_def getCounter_def live_def
        js_def)

lemma burstStore_handler: "snd (handler burstStore exampleEnv exampleReq) = Inl BurstLimit"
  by (rule handler_rate_error(1))
     (simp_all add: rateLimit_snd example_clientIp burstStore_values)

theorem C10_burst_keeps_daily_witness:
  "snd (handler burstStore exampleEnv exampleReq) = Inl BurstLimit
   \<and> counters (fst (handler burstStore exampleEnv exampleReq)) (js ''dl:'' @ js ''10.0.0.1'')
       = Some (2, Some 86400)"
  using C10_burst_keeps_daily [OF burstStore_handler] burstStore_handler
  by (simp add: example_clientIp burstStore_values)

text \<open>
  Claim C7. A request answered with an error of status 400 or 429 writes no record of a
  run and no entry of a ranking: the hashes and the sorted sets of the store are
  unchanged. A request answered with status 400 has passed the limiter, and both
  counters of its client stand one higher than before: a rejected submission has used
  its share of the quota.
\<close>

theorem C7_rejection_writes_nothing:
  "(snd (handler st env req) = Inl e \<and> (status_of e = 400 \<or> status_of e = 429)
      \<longrightarrow> hashes (fst (handler st env req)) = hashes st
          \<and> zsets (fst (handler st env req)) = zsets st)
   \<and> (snd (handler st env req) = Inl e \<and> status_of e = 400
      \<longrightarrow> counterValue (fst (handler st env req)) (js ''rl:'' @ clientIp req)
            = counterValue st (js ''rl:'' @ clientIp req) + 1
          \<and> counterValue (fst (handler st env req)) (js ''dl:'' @ clientIp req)
            = counterValue st (js ''dl:'' @ clientIp req) + 1)"
proof -
  let ?ip = "clientIp req"
  let ?st' = "fst (handler st env req)"
  let ?rl = "js ''rl:'' @ ?ip" and ?dl = "js ''dl:'' @ ?ip"
  have quota: "counterValue ?st' ?rl = counterValue st ?rl + 1
      \<and> counterValue ?st' ?dl = counterValue st ?dl + 1"
    if e: "snd (handler st env req) = Inl e" and s: "status_of e = 400"
  proof -
    have post: "req_method req = POST"
      using e by (rule handler_error_POST) (use s in auto)
    have "snd (rateLimit st ?ip) = None"
    proof (rule ccontr)
      assume "snd (rateLimit st ?ip) \<noteq> None"
      then obtain e' where e': "snd (rateLimit st ?ip) = Some e'" by auto
      then have "status_of e' = 429"
        by (auto simp: rateLimit_snd split: if_splits)
      moreover have "e = e'"
        using handler_rate_error(1) [OF post e'] e by simp
      ultimately show False using s by simp
    qed
    then have pass: "\<not> 2 < counterValue st ?rl + 1"
      by (auto simp: rateLimit_snd split: if_splits)
    let ?s1 = "fst (touch st ?rl 30)"
    let ?s2 = "fst (touch ?s1 ?dl 86400)"
    have "fst (rateLimit st ?ip) = ?s2"
      using pass by (simp add: rateLimit_fst)
    then have c: "getCounter ?st' k = getCounter ?s2 k" for k
      by (intro getCounter_cong) (simp_all add: handler_POST_store [OF post])
    have "getCounter ?s2 ?rl = getCounter ?s1 ?rl"
      by (simp add: getCounter_touch_other)
    then have 1: "counterValue ?st' ?rl = counterValue st ?rl + 1"
      by (simp add: counterValue_def c getCounter_touch_same)
    have 2: "counterValue ?st' ?dl = counterValue st ?dl + 1"
      by (simp add: counterValue_def c getCounter_touch_same [of 86400 ?s1 ?dl]
            getCounter_touch_other [of ?dl ?rl st 30])
    from 1 2 show ?thesis by simp
  qed
  show ?thesis
    using handler_error_store [of st env req e] quota by blast
qed

theorem C7_rejection_writes_nothing_witness:
  "snd (handler emptyStore exampleEnv
      (exampleReq\<lparr>req_body := Some (exampleBody(''floor'' := JNum 0 0))\<rparr>)) = Inl InvalidFloor
   \<and> hashes (fst (handler emptyStore exampleEnv
      (exampleReq\<lparr>req_body := Some (exampleBody(''floor'' := JNum 0 0))\<rparr>))) = (\<lambda>k. None)
   \<and> counterValue (fst (handler emptyStore exampleEnv
      (exampleReq\<lparr>req_body := Some (exampleBody(''floor'' := JNum 0 0))\<rparr>)))
        (js ''rl:'' @ js ''10.0.0.1'') = 1
   \<and> counterValue (fst (handler emptyStore exampleEnv
      (exampleReq\<lparr>req_body := Some (exampleBody(''floor'' := JNum 0 0))\<rparr>)))
        (js ''dl:'' @ js ''10.0.0.1'') = 1"
proof -
  let ?b = "exampleBody(''floor'' := JNum 0 0)"
  let ?req = "exampleReq\<lparr>req_body := Some ?b\<rparr>"
  have ip: "clientIp ?req = js ''10.0.0.1''"
    using example_clientIp by (simp add: clientIp_def)
  have v: "validate ?b = Inl InvalidFloor"
    by (simp add: example_defs)
  obtain st1 where r: "rateLimit emptyStore (js ''10.0.0.1'') = (st1, None)"
    using example_rateLimit by (metis prod.collapse)
  have h: "snd (handler emptyStore exampleEnv ?req) = Inl InvalidFloor"
    by (simp add: handler_def ip r v)
  have z: "counterValue emptyStore k = 0" for k
    by (simp add: counterValue_def getCounter_def emptyStore_def)
  have hs: "hashes emptyStore = (\<lambda>k. None)"
    by (simp add: emptyStore_def)
  from C7_rejection_writes_nothing [of emptyStore exampleEnv ?req InvalidFloor] h
  show ?thesis
    by (simp add: ip z hs)
qed

lemma handler_POST_rl:
  assumes "req_method req = POST"
  shows "counters (fst (handler st env req)) (js ''rl:'' @ clientIp req) =
     Some (counterValue st (js ''rl:'' @ clientIp req) + 1,
           if counterValue st (js ''rl:'' @ clientIp req) + 1 = 1 then Some (clock st + 30)
           else expiryOf st (js ''rl:'' @ clientIp req))"
  by (simp add: handler_POST_store(1) [OF assms] rateLimit_fst touch_counters)

lemma handler_POST_dl:
  assumes "req_method req = POST"
  shows "counters (fst (handler st env req)) (js ''dl:'' @ clientIp req) =
     (if 2 < counterValue st (js ''rl:'' @ clientIp req) + 1
        then counters st (js ''dl:'' @ clientIp req)
      else Some (counterValue st (js ''dl:'' @ clientIp req) + 1,
           if counterValue st (js ''dl:'' @ clientIp req) + 1 = 1 then Some (clock st + 86400)
           else expiryOf st (js ''dl:'' @ clientIp req)))"
  by (simp add: handler_POST_store(1) [OF assms] rateLimit_fst touch_counters
        counterValue_touch_other expiryOf_touch_other)

lemma handler_POST_answer:
  assumes "req_method req = POST"
  shows "2 < counterValue st (js ''rl:'' @ clientIp req) + 1
           \<Longrightarrow> snd (handler st env req) = Inl BurstLimit"
    and "\<not> 2 < counterValue st (js ''rl:'' @ clientIp req) + 1
           \<Longrightarrow> 20 < counterValue st (js ''dl:'' @ clientIp req) + 1
           \<Longrightarrow> snd (handler st env req) = Inl DailyLimit"
    and "\<not> 2 < counterValue st (js ''rl:'' @ clientIp req) + 1
           \<Longrightarrow> \<not> 20 < counterValue st (js ''dl:'' @ clientIp req) + 1
           \<Longrightarrow> snd (handler st env req) \<noteq> Inl BurstLimit
               \<and> snd (handler st env req) \<noteq> Inl DailyLimit"
proof -
  show "2 < counterValue st (js ''rl:'' @ clientIp req) + 1
           \<Longrightarrow> snd (handler st env req) = Inl BurstLimit"
    by (rule handler_rate_error(1) [OF assms]) (simp add: rateLimit_snd)
  show "\<not> 2 < counterValue st (js ''rl:'' @ clientIp req) + 1
           \<Longrightarrow> 20 < counterValue st (js ''dl:'' @ clientIp req) + 1
           \<Longrightarrow> snd (handler st env req) = Inl DailyLimit"
    by (rule handler_rate_error(1) [OF assms]) (simp add: rateLimit_snd)
  show "\<not> 2 < counterValue st (js ''rl:'' @ clientIp req) + 1
           \<Longrightarrow> \<not> 20 < counterValue st (js ''dl:'' @ clientIp req) + 1
           \<Longrightarrow> snd (handler st env req) \<noteq> Inl BurstLimit
               \<and> snd (handler st env req) \<noteq> Inl DailyLimit"
    using handler_rate_error(2,3) [OF assms, of st env]
    by (auto simp: rateLimit_snd)
qed

lemma elapse_simps [simp]:
  "clock (elapse d st) = clock st + d" "counters (elapse d st) = counters st"
  "hashes (elapse d st) = hashes st" "zsets (elapse d st) = zsets st"
  by (simp_all add: elapse_def)

lemma getCounter_Some:
  "counters st k = Some (n, Some t) \<Longrightarrow>
     getCounter st k = (if clock st < t then Some (n, Some t) else None)"
  by (simp add: getCounter_def live_def)

lemma counter_gone:
  "counters st k = Some (n, Some t) \<Longrightarrow> t \<le> clock st \<Longrightarrow> counterValue st k = 0"
  by (simp add: counterValue_def getCounter_Some)

lemma counter_live:
  "counters st k = Some (n, Some t) \<Longrightarrow> clock st < t \<Longrightarrow>
     counterValue st k = n \<and> expiryOf st k = Some t"
  by (simp add: counterValue_def expiryOf_def getCounter_Some)

lemma counter_None: "getCounter st k = None \<Longrightarrow> counterValue st k = 0"
  by (simp add: counterValue_def)

lemma serve_Cons:
  "snd (serve st ((d, env, req) # rest)) =
     snd (handler (elapse d st) env req) # snd (serve (fst (handler (elapse d st) env req)) rest)"
  by (simp add: case_prod_beta Let_def)

lemma serve_daily:
  assumes "\<forall>ev \<in> set evs. req_method (snd (snd ev)) = POST \<and> clientIp (snd (snd ev)) = ip
             \<and> 30 \<le> fst ev"
    and "counters st (js ''rl:'' @ ip) = Some (1, Some er)" and "er \<le> clock st + 30"
    and "counters st (js ''dl:'' @ ip) = Some (k, Some T)" and "1 \<le> k"
    and "clock st + sum_list (map fst evs) < T" and "i < length evs"
  shows "(snd (serve st evs) ! i = Inl DailyLimit \<longleftrightarrow> 20 \<le> k + int i)
         \<and> snd (serve st evs) ! i \<noteq> Inl BurstLimit"
  using assms
proof (induction evs arbitrary: st er k i)
  case Nil
  then show ?case by simp
next
  case (Cons ev evs)
  obtain d env req where ev: "ev = (d, env, req)"
    by (cases ev)
  let ?s = "elapse d st"
  let ?s1 = "fst (handler ?s env req)"
  from Cons.prems(1) ev have post: "req_method req = POST" and ip: "clientIp req = ip"
    and d: "30 \<le> d"
    by simp_all
  have rl0: "counterValue ?s (js ''rl:'' @ ip) = 0"
    using Cons.prems(2,3) d by (intro counter_gone [of _ _ 1 er]) simp_all
  have "clock ?s < T"
    using Cons.prems(6) ev by simp
  then have dl: "counterValue ?s (js ''dl:'' @ ip) = k" "expiryOf ?s (js ''dl:'' @ ip) = Some T"
    using counter_live [of ?s "js ''dl:'' @ ip" k T] Cons.prems(4) by simp_all
  have ans: "(snd (handler ?s env req) = Inl DailyLimit \<longleftrightarrow> 20 \<le> k)
      \<and> snd (handler ?s env req) \<noteq> Inl BurstLimit"
    using handler_POST_answer(2,3) [OF post, of ?s env] rl0 dl ip
    by (cases "20 \<le> k") auto
  have rl1: "counters ?s1 (js ''rl:'' @ ip) = Some (1, Some (clock ?s + 30))"
    using handler_POST_rl [OF post, of ?s env] rl0 ip by simp
  have dl1: "counters ?s1 (js ''dl:'' @ ip) = Some (k + 1, Some T)"
    using handler_POST_dl [OF post, of ?s env] rl0 dl ip Cons.prems(5) by simp
  have ck: "clock ?s1 = clock st + d"
    by (simp add: handler_POST_store(2) [OF post])
  show ?case
  proof (cases i)
    case 0
    with ans ev show ?thesis
      by (simp add: serve_Cons del: serve.simps)
  next
    case (Suc j)
    have "(snd (serve ?s1 evs) ! j = Inl DailyLimit \<longleftrightarrow> 20 \<le> (k + 1) + int j)
         \<and> snd (serve ?s1 evs) ! j \<noteq> Inl BurstLimit"
    proof (rule Cons.IH [of ?s1 "clock ?s + 30" "k + 1" j])
      show "\<forall>ev\<in>set evs. req_method (snd (snd ev)) = POST \<and> clientIp (snd (snd ev)) = ip \<and> 30 \<le> fst ev"
        using Cons.prems(1) by simp
      show "counters ?s1 (js ''rl:'' @ ip) = Some (1, Some (clock ?s + 30))"
        by (rule rl1)
      show "clock ?s + 30 \<le> clock ?s1 + 30"
        by (simp add: ck)
      show "counters ?s1 (js ''dl:'' @ ip) = Some (k + 1, Some T)"
        by (rule dl1)
      show "1 \<le> k + 1"
        using Cons.prems(5) by simp
      show "clock ?s1 + sum_list (map fst evs) < T"
        using Cons.prems(6) ev by (simp add: ck)
      show "j < length evs"
        using Cons.prems(7) Suc by simp
    qed
    with Suc ev show ?thesis
      by (simp add: serve_Cons algebra_simps del: serve.simps)
  qed
qed
lemma handler_not_burst:
  assumes "req_method req = POST" "\<not> 2 < counterValue st (js ''rl:'' @ clientIp req) + 1"
  shows "snd (handler st env req) \<noteq> Inl BurstLimit"
  using handler_rate_error(2) [OF assms(1), of st env] assms(2)
  by (auto simp: rateLimit_snd split: if_splits)

lemma serve_burst:
  assumes p1: "req_method r1 = POST" "clientIp r1 = ip"
    and p2: "req_method r2 = POST" "clientIp r2 = ip"
    and p3: "req_method r3 = POST" "clientIp r3 = ip"
    and fresh: "getCounter (elapse d1 st) (js ''rl:'' @ ip) = None"
    and d: "d2 + d3 < 30"
  shows "snd (serve st ((d1, env1, r1) # (d2, env2, r2) # (d3, env3, r3) # rest)) ! 2
           = Inl BurstLimit
    \<and> snd (serve st ((d1, env1, r1) # (d2, env2, r2) # (d3, env3, r3) # rest)) ! 0
           \<noteq> Inl BurstLimit
    \<and> snd (serve st ((d1, env1, r1) # (d2, env2, r2) # (d3, env3, r3) # rest)) ! 1
           \<noteq> Inl BurstLimit"
proof -
  let ?rl = "js ''rl:'' @ ip"
  let ?s0 = "elapse d1 st"
  let ?s1 = "fst (handler ?s0 env1 r1)"
  let ?s1' = "elapse d2 ?s1"
  let ?s2 = "fst (handler ?s1' env2 r2)"
  let ?s2' = "elapse d3 ?s2"
  have c0: "counterValue ?s0 ?rl = 0"
    using fresh by (rule counter_None)
  have a1: "snd (handler ?s0 env1 r1) \<noteq> Inl BurstLimit"
    using p1 c0 by (intro handler_not_burst) simp_all
  have k1: "counters ?s1 ?rl = Some (1, Some (clock ?s0 + 30))"
    using handler_POST_rl [OF p1(1), of ?s0 env1] c0 p1(2) by simp
  have ck1: "clock ?s1 = clock ?s0"
    by (simp add: handler_POST_store(2) [OF p1(1)])
  have c1: "counterValue ?s1' ?rl = 1" "expiryOf ?s1' ?rl = Some (clock ?s0 + 30)"
    using counter_live [of ?s1' ?rl 1 "clock ?s0 + 30"] k1 d by (simp_all add: ck1)
  have a2: "snd (handler ?s1' env2 r2) \<noteq> Inl BurstLimit"
    using p2 c1 by (intro handler_not_burst) simp_all
  have k2: "counters ?s2 ?rl = Some (2, Some (clock ?s0 + 30))"
    using handler_POST_rl [OF p2(1), of ?s1' env2] c1 p2(2) by simp
  have ck2: "clock ?s2 = clock ?s0 + d2"
    by (simp add: handler_POST_store(2) [OF p2(1)] ck1)
  have c2: "counterValue ?s2' ?rl = 2"
    using counter_live [of ?s2' ?rl 2 "clock ?s0 + 30"] k2 d by (simp add: ck2)
  have a3: "snd (handler ?s2' env3 r3) = Inl BurstLimit"
    using p3 c2 by (intro handler_POST_answer(1)) simp_all
  from a1 a2 a3 show ?thesis
    by (simp add: serve_Cons del: serve.simps)
qed

lemma serve_daily_fresh:
  assumes all: "\<forall>ev \<in> set (e # evs). req_method (snd (snd ev)) = POST
                  \<and> clientIp (snd (snd ev)) = ip"
    and apart: "\<forall>ev \<in> set evs. 30 \<le> fst ev"
    and window: "sum_list (map fst evs) < 86400"
    and fresh: "getCounter (elapse (fst e) st) (js ''rl:'' @ ip) = None"
      "getCounter (elapse (fst e) st) (js ''dl:'' @ ip) = None"
    and i: "i < length (e # evs)"
  shows "(snd (serve st (e # evs)) ! i = Inl DailyLimit \<longleftrightarrow> 20 \<le> i)
       \<and> snd (serve st (e # evs)) ! i \<noteq> Inl BurstLimit"
proof -
  obtain d env req where e: "e = (d, env, req)"
    by (cases e)
  let ?rl = "js ''rl:'' @ ip" and ?dl = "js ''dl:'' @ ip"
  let ?s0 = "elapse d st"
  let ?s1 = "fst (handler ?s0 env req)"
  from all e have post: "req_method req = POST" and ip: "clientIp req = ip"
    by simp_all
  have c0: "counterValue ?s0 ?rl = 0" "counterValue ?s0 ?dl = 0"
    using fresh e by (simp_all add: counter_None)
  have a: "snd (handler ?s0 env req) \<noteq> Inl BurstLimit \<and> snd (handler ?s0 env req) \<noteq> Inl DailyLimit"
    using post c0 ip by (intro handler_POST_answer(3)) simp_all
  have k: "counters ?s1 ?rl = Some (1, Some (clock ?s0 + 30))"
    "counters ?s1 ?dl = Some (1, Some (clock ?s0 + 86400))"
    using handler_POST_rl [OF post, of ?s0 env] handler_POST_dl [OF post, of ?s0 env] c0 ip
    by simp_all
  have ck: "clock ?s1 = clock ?s0"
    by (simp add: handler_POST_store(2) [OF post])
  show ?thesis
  proof (cases i)
    case 0
    with a e show ?thesis
      by (simp add: serve_Cons del: serve.simps)
  next
    case (Suc j)
    have "(snd (serve ?s1 evs) ! j = Inl DailyLimit \<longleftrightarrow> 20 \<le> 1 + int j)
         \<and> snd (serve ?s1 evs) ! j \<noteq> Inl BurstLimit"
    proof (rule serve_daily [of evs ip ?s1 "clock ?s0 + 30" 1 "clock ?s0 + 86400" j])
      show "\<forall>ev\<in>set evs. req_method (snd (snd ev)) = POST \<and> clientIp (snd (snd ev)) = ip \<and> 30 \<le> fst ev"
        using all apart by simp
      show "clock ?s1 + sum_list (map fst evs) < clock ?s0 + 86400"
        using window by (simp add: ck)
      show "j < length evs"
        using i Suc by simp
    qed (simp_all add: k ck)
    with Suc e show ?thesis
      by (simp add: serve_Cons del: serve.simps)
  qed
qed

text \<open>
  Claim C6. A submission that finds the burst counter live at 2 or more is answered with
  the burst-limit error (the count after the increment exceeds 2), and one that passes
  the burst limit and finds the daily counter live at 20 or more is answered with the
  daily-limit error; both have status 429. The first increment of the burst counter
  sets its expiry 30 seconds ahead, that of the daily counter 86400 seconds ahead. Over
  a run of requests of one client: the third submission that arrives less than 30
  seconds after a first one that started the burst counter is answered with the
  burst-limit error, and of 21 submissions at least 30 seconds apart within 86400
  seconds, the first of which started both counters, the first twenty pass the limiter
  and the 21st is answered with the daily-limit error.
\<close>

theorem C6_rate_limits:
  "(req_method req = POST \<and> 2 \<le> counterValue st (js ''rl:'' @ clientIp req)
      \<longrightarrow> snd (handler st env req) = Inl BurstLimit \<and> status_of BurstLimit = 429)
   \<and> (req_method req = POST \<and> counterValue st (js ''rl:'' @ clientIp req) < 2
        \<and> 20 \<le> counterValue st (js ''dl:'' @ clientIp req)
      \<longrightarrow> snd (handler st env req) = Inl DailyLimit \<and> status_of DailyLimit = 429)
   \<and> (req_method req = POST \<and> getCounter st (js ''rl:'' @ clientIp req) = None
      \<longrightarrow> getCounter (fst (handler st env req)) (js ''rl:'' @ clientIp req)
            = Some (1, Some (clock st + 30)))
   \<and> (req_method req = POST \<and> counterValue st (js ''rl:'' @ clientIp req) < 2
        \<and> getCounter st (js ''dl:'' @ clientIp req) = None
      \<longrightarrow> getCounter (fst (handler st env req)) (js ''dl:'' @ clientIp req)
            = Some (1, Some (clock st + 86400)))
   \<and> (req_method r1 = POST \<and> clientIp r1 = ip \<and> req_method r2 = POST \<and> clientIp r2 = ip
        \<and> req_method r3 = POST \<and> clientIp r3 = ip
        \<and> getCounter (elapse d1 st) (js ''rl:'' @ ip) = None \<and> d2 + d3 < 30
      \<longrightarrow> snd (serve st ((d1, env1, r1) # (d2, env2, r2) # (d3, env3, r3) # rest)) ! 2
            = Inl BurstLimit)
   \<and> (length evs = 21
        \<and> (\<forall>ev \<in> set evs. req_method (snd (snd ev)) = POST \<and> clientIp (snd (snd ev)) = ip)
        \<and> (\<forall>ev \<in> set (tl evs). 30 \<le> fst ev) \<and> sum_list (map fst (tl evs)) < 86400
        \<and> getCounter (elapse (fst (hd evs)) st) (js ''rl:'' @ ip) = None
        \<and> getCounter (elapse (fst (hd evs)) st) (js ''dl:'' @ ip) = None
      \<longrightarrow> snd (serve st evs) ! 20 = Inl DailyLimit
          \<and> (\<forall>i<20. snd (serve st evs) ! i \<noteq> Inl DailyLimit
                     \<and> snd (serve st evs) ! i \<noteq> Inl BurstLimit))"
proof -
  let ?rl = "js ''rl:'' @ clientIp req" and ?dl = "js ''dl:'' @ clientIp req"
  let ?st' = "fst (handler st env req)"
  have A: "snd (handler st env req) = Inl BurstLimit \<and> status_of BurstLimit = 429"
    if "req_method req = POST" "2 \<le> counterValue st ?rl"
    using handler_POST_answer(1) [OF that(1), of st env] that(2) by simp
  have B: "snd (handler st env req) = Inl DailyLimit \<and> status_of DailyLimit = 429"
    if "req_method req = POST" "counterValue st ?rl < 2" "20 \<le> counterValue st ?dl"
    using handler_POST_answer(2) [OF that(1), of st env] that(2,3) by simp
  have C: "getCounter ?st' ?rl = Some (1, Some (clock st + 30))"
    if "req_method req = POST" "getCounter st ?rl = None"
  proof -
    have "counters ?st' ?rl = Some (1, Some (clock st + 30))"
      using handler_POST_rl [OF that(1), of st env] counter_None [OF that(2)] by simp
    then show ?thesis
      by (simp add: getCounter_Some handler_POST_store(2) [OF that(1)])
  qed
  have D: "getCounter ?st' ?dl = Some (1, Some (clock st + 86400))"
    if "req_method req = POST" "counterValue st ?rl < 2" "getCounter st ?dl = None"
  proof -
    have "counters ?st' ?dl = Some (1, Some (clock st + 86400))"
      using handler_POST_dl [OF that(1), of st env] counter_None [OF that(3)] that(2) by simp
    then show ?thesis
      by (simp add: getCounter_Some handler_POST_store(2) [OF that(1)])
  qed
  have E: "snd (serve st ((d1, env1, r1) # (d2, env2, r2) # (d3, env3, r3) # rest)) ! 2
            = Inl BurstLimit"
    if "req_method r1 = POST" "clientIp r1 = ip" "req_method r2 = POST" "clientIp r2 = ip"
      "req_method r3 = POST" "clientIp r3 = ip"
      "getCounter (elapse d1 st) (js ''rl:'' @ ip) = None" "d2 + d3 < 30"
    using serve_burst [OF that] by simp
  have F: "snd (serve st evs) ! 20 = Inl DailyLimit
          \<and> (\<forall>i<20. snd (serve st evs) ! i \<noteq> Inl DailyLimit
                     \<and> snd (serve st evs) ! i \<noteq> Inl BurstLimit)"
    if len: "length evs = 21"
      and all: "\<forall>ev \<in> set evs. req_method (snd (snd ev)) = POST \<and> clientIp (snd (snd ev)) = ip"
      and apart: "\<forall>ev \<in> set (tl evs). 30 \<le> fst ev"
      and window: "sum_list (map fst (tl evs)) < 86400"
      and fresh: "getCounter (elapse (fst (hd evs)) st) (js ''rl:'' @ ip) = None"
         "getCounter (elapse (fst (hd evs)) st) (js ''dl:'' @ ip) = None"
  proof -
    from len obtain e es where evs: "evs = e # es"
      by (cases evs) auto
    have *: "(snd (serve st (e # es)) ! i = Inl DailyLimit \<longleftrightarrow> 20 \<le> i)
         \<and> snd (serve st (e # es)) ! i \<noteq> Inl BurstLimit" if "i < 21" for i
      using all apart window fresh len that unfolding evs
      by (intro serve_daily_fresh [of e es ip st i]) simp_all
    from * [of 20] * show ?thesis
      unfolding evs by auto
  qed
  from A B C D E F show ?thesis
    by blast
qed

lemma emptyStore_counter [simp]:
  "getCounter (elapse d emptyStore) k = None" "getCounter emptyStore k = None"
  "counterValue emptyStore k = 0" "clock emptyStore = 0"
  by (simp_all add: getCounter_def counterValue_def emptyStore_def)

lemma dailyStore_values:
  "counterValue dailyStore (js ''rl:'' @ js ''10.0.0.1'') = 0"
  "counterValue dailyStore (js ''dl:'' @ js ''10.0.0.1'') = 20"
  by (simp_all add: dailyStore_def emptyStore_def counterValue_def getCounter_def live_def
        js_def)

theorem C6_rate_limits_witness:
  "snd (handler burstStore exampleEnv exampleReq) = Inl BurstLimit
   \<and> snd (handler dailyStore exampleEnv exampleReq) = Inl DailyLimit
   \<and> getCounter (fst (handler emptyStore exampleEnv exampleReq)) (js ''rl:'' @ js ''10.0.0.1'')
       = Some (1, Some 30)
   \<and> getCounter (fst (handler emptyStore exampleEnv exampleReq)) (js ''dl:'' @ js ''10.0.0.1'')
       = Some (1, Some 86400)
   \<and> snd (serve emptyStore [(0, exampleEnv, exampleReq), (10, exampleEnv, exampleReq),
          (10, exampleEnv, exampleReq)]) ! 2 = Inl BurstLimit
   \<and> snd (serve emptyStore (replicate 21 (60, exampleEnv, exampleReq))) ! 20 = Inl DailyLimit
   \<and> snd (serve emptyStore (replicate 21 (60, exampleEnv, exampleReq))) ! 19 \<noteq> Inl DailyLimit"
proof -
  note ip = example_clientIp
  have 1: "snd (handler burstStore exampleEnv exampleReq) = Inl BurstLimit"
    using C6_rate_limits [where req = exampleReq and st = burstStore and env = exampleEnv]
    by (simp add: ip burstStore_values del: serve.simps)
  have 2: "snd (handler dailyStore exampleEnv exampleReq) = Inl DailyLimit"
    using C6_rate_limits [where req = exampleReq and st = dailyStore and env = exampleEnv]
    by (simp add: ip dailyStore_values del: serve.simps)
  have 3: "getCounter (fst (handler emptyStore exampleEnv exampleReq))
             (js ''rl:'' @ js ''10.0.0.1'') = Some (1, Some 30)"
    and 4: "getCounter (fst (handler emptyStore exampleEnv exampleReq))
             (js ''dl:'' @ js ''10.0.0.1'') = Some (1, Some 86400)"
    using C6_rate_limits [where req = exampleReq and st = emptyStore and env = exampleEnv]
    by (simp_all add: ip del: serve.simps)
  have 5: "snd (serve emptyStore [(0, exampleEnv, exampleReq), (10, exampleEnv, exampleReq),
          (10, exampleEnv, exampleReq)]) ! 2 = Inl BurstLimit"
    using C6_rate_limits [where st = emptyStore and ?r1.0 = exampleReq and ?r2.0 = exampleReq
        and ?r3.0 = exampleReq and ip = "js ''10.0.0.1''" and ?d1.0 = 0 and ?d2.0 = 10
        and ?d3.0 = 10 and ?env1.0 = exampleEnv and ?env2.0 = exampleEnv
        and ?env3.0 = exampleEnv and rest = "[]"]
    by (simp add: ip del: serve.simps)
  have 6: "snd (serve emptyStore (replicate 21 (60, exampleEnv, exampleReq))) ! 20 = Inl DailyLimit
    \<and> snd (serve emptyStore (replicate 21 (60, exampleEnv, exampleReq))) ! 19 \<noteq> Inl DailyLimit"
    using C6_rate_limits [where st = emptyStore and ip = "js ''10.0.0.1''"
        and evs = "replicate 21 (60, exampleEnv, exampleReq)"]
    by (simp add: ip sum_list_replicate del: serve.simps replicate_numeral)
  from 1 2 3 4 5 6 show ?thesis
    by simp
qed

subsection \<open>Numbers written and read back\<close>














subsection \<open>The descending order of a ranking\<close>

lemma length_descending [simp]: "length (descending z) = length z"
  by (simp add: descending_def)

lemma set_descending [simp]: "set (descending z) = set z"
  by (simp add: descending_def)


subsection \<open>The loop over the top results\<close>


lemma hydrated_record:
  "(i, d) \<in> set (hydrated st items) \<Longrightarrow>
     hgetall st (js ''run:'' @ i) = Some d \<and> i \<in> fst ` set items"
  by (induction items) (auto split: option.splits if_splits)















subsection \<open>The store after the example submission\<close>








subsection \<open>The top entries\<close>






subsection \<open>The state an accepted submission leaves\<close>



subsection \<open>The best run of a player\<close>




lemma descending_Nil [simp]: "descending z = [] \<longleftrightarrow> z = []"
  using length_descending [of z] by (simp only: length_0_conv [symmetric])

lemma descending_empty [simp]: "descending [] = []"
  by (simp add: descending_def)





lemma run_key_inject [simp]: "js ''run:'' @ a = js ''run:'' @ b \<longleftrightarrow> a = b"
  by simp






subsection \<open>The second sample submission\<close>













end
